theory Spec2Isabelle
  imports Main "HOL-Library.AList"
begin

section \<open>Strings and integers as the engine prints them\<close>

text \<open>
  Python strings are modelled as \<^typ>\<open>string\<close>, read as the UTF-8 bytes of the text. The
  two non-ASCII characters of the source's literals are given as their byte sequences.
\<close>

definition em_dash :: string where
  "em_dash = [CHR 0xE2, CHR 0x80, CHR 0x94]"

definition bullet :: string where
  "bullet = [CHR 0xE2, CHR 0x80, CHR 0xA2]"

definition newline :: string where
  "newline = [CHR 0x0A]"

text \<open>\<open>str(n)\<close> for a Python integer, as an f-string renders it.\<close>

fun str_nat :: "nat \<Rightarrow> string" where
  "str_nat n =
     (if n < 10 then [''0123456789'' ! n]
      else str_nat (n div 10) @ [''0123456789'' ! (n mod 10)])"

declare str_nat.simps [simp del]

definition str_int :: "int \<Rightarrow> string" where
  "str_int i = (if i < 0 then CHR ''-'' # str_nat (nat (- i)) else str_nat (nat i))"

text \<open>\<open>sep.join(xs)\<close> with the separator a newline.\<close>

fun join_lines :: "string list \<Rightarrow> string" where
  "join_lines [] = []"
| "join_lines [x] = x"
| "join_lines (x # y # ys) = x @ newline @ join_lines (y # ys)"

text \<open>\<open>sub in s\<close> for strings.\<close>

fun starts_with :: "string \<Rightarrow> string \<Rightarrow> bool" where
  "starts_with [] s = True"
| "starts_with (c # cs) [] = False"
| "starts_with (c # cs) (d # ds) = (c = d \<and> starts_with cs ds)"

fun contains :: "string \<Rightarrow> string \<Rightarrow> bool" where
  "contains sub [] = (sub = [])"
| "contains sub (c # cs) = (starts_with sub (c # cs) \<or> contains sub cs)"

section \<open>Data model\<close>

record MythologicalEvent =
  timestamp :: string
  persona_name :: string
  event_type :: string
  "context" :: string
  emotional_weight :: int
  tags :: "string list"

record PersonaState =
  name :: string
  role :: string
  voice :: string
  essence :: string
  constraints :: "string list"
  sample_phrases :: "string list"
  invocation_count :: int
  evolution_stage :: int
  accumulated_context :: "string list"
  learned_phrases :: "string list"
  developed_traits :: "string list"

text \<open>
  The dataclass constructor with its defaults and \<open>__post_init__\<close>: an absent counter is 0,
  an absent or \<open>None\<close> list is a fresh empty list.
\<close>

definition new_PersonaState ::
  "string \<Rightarrow> string \<Rightarrow> string \<Rightarrow> string \<Rightarrow> string list \<Rightarrow> string list \<Rightarrow>
   int option \<Rightarrow> int option \<Rightarrow> string list option \<Rightarrow> string list option \<Rightarrow>
   string list option \<Rightarrow> PersonaState" where
  "new_PersonaState n r v e cs sp ic es ac lp dt =
     \<lparr>name = n, role = r, voice = v, essence = e, constraints = cs, sample_phrases = sp,
      invocation_count = (case ic of None \<Rightarrow> 0 | Some i \<Rightarrow> i),
      evolution_stage = (case es of None \<Rightarrow> 0 | Some i \<Rightarrow> i),
      accumulated_context = (case ac of None \<Rightarrow> [] | Some xs \<Rightarrow> xs),
      learned_phrases = (case lp of None \<Rightarrow> [] | Some xs \<Rightarrow> xs),
      developed_traits = (case dt of None \<Rightarrow> [] | Some xs \<Rightarrow> xs)\<rparr>"

text \<open>
  A Python \<open>dict\<close> keeps its keys in insertion order; assigning to a present key replaces
  the value in place, assigning to an absent key appends the entry.
\<close>

type_synonym ('k, 'v) dict = "('k \<times> 'v) list"

definition dict_get :: "('k, 'v) dict \<Rightarrow> 'k \<Rightarrow> 'v option" where
  "dict_get d k = map_of d k"

definition dict_set :: "('k, 'v) dict \<Rightarrow> 'k \<Rightarrow> 'v \<Rightarrow> ('k, 'v) dict" where
  "dict_set d k v = AList.update k v d"

definition dict_keys :: "('k, 'v) dict \<Rightarrow> 'k list" where
  "dict_keys d = map fst d"

definition dict_values :: "('k, 'v) dict \<Rightarrow> 'v list" where
  "dict_values d = map snd d"

text \<open>The contents of a JSON document; numbers with a fraction do not occur in this engine.\<close>

datatype json =
  JNull
  | JBool bool
  | JInt int
  | JStr string
  | JList "json list"
  | JObj "(string \<times> json) list"

record disk =
  personas_file :: "json option"
  events_file :: "json option"
  lore_file :: "json option"

record MythosEngine =
  personas :: "(string, PersonaState) dict"
  events :: "MythologicalEvent list"
  generated_lore :: "(string, string list) dict"
  files :: disk

datatype error =
  KeyError string
  | TypeError
  | AttributeError
  | IllTyped

text \<open>
  What the engine takes from its surroundings during one \<open>log_invocation\<close>: the clock
  readings of the two \<open>datetime.now()\<close> calls and the two draws of \<open>random.choice\<close>.
\<close>

record ambient =
  now_invocation :: string
  now_evolution :: string
  pick_phrase :: nat
  pick_trait :: nat

text \<open>\<open>random.choice\<close> on a non-empty sequence, the draw given as a number.\<close>

definition choice :: "nat \<Rightarrow> 'a list \<Rightarrow> 'a" where
  "choice r xs = xs ! (r mod length xs)"

section \<open>Persistence layer\<close>

definition event_to_dict :: "MythologicalEvent \<Rightarrow> json" where
  "event_to_dict e =
     JObj [(''timestamp'', JStr (timestamp e)),
           (''persona_name'', JStr (persona_name e)),
           (''event_type'', JStr (event_type e)),
           (''context'', JStr (context e)),
           (''emotional_weight'', JInt (emotional_weight e)),
           (''tags'', JList (map JStr (tags e)))]"

definition persona_to_dict :: "PersonaState \<Rightarrow> json" where
  "persona_to_dict p =
     JObj [(''name'', JStr (name p)),
           (''role'', JStr (role p)),
           (''voice'', JStr (voice p)),
           (''essence'', JStr (essence p)),
           (''constraints'', JList (map JStr (constraints p))),
           (''sample_phrases'', JList (map JStr (sample_phrases p))),
           (''invocation_count'', JInt (invocation_count p)),
           (''evolution_stage'', JInt (evolution_stage p)),
           (''accumulated_context'', JList (map JStr (accumulated_context p))),
           (''learned_phrases'', JList (map JStr (learned_phrases p))),
           (''developed_traits'', JList (map JStr (developed_traits p)))]"

definition save_state :: "MythosEngine \<Rightarrow> MythosEngine" where
  "save_state s =
     s\<lparr>files :=
         \<lparr>personas_file = Some (JObj (map (\<lambda>(n, p). (n, persona_to_dict p)) (personas s))),
          events_file = Some (JList (map event_to_dict (events s))),
          lore_file =
            Some (JObj (map (\<lambda>(k, xs). (k, JList (map JStr xs))) (generated_lore s)))\<rparr>\<rparr>"

text \<open>Sequencing of computations that may raise.\<close>

definition seq :: "error + 'a \<Rightarrow> ('a \<Rightarrow> error + 'b) \<Rightarrow> error + 'b" where
  "seq m f = (case m of Inl e \<Rightarrow> Inl e | Inr v \<Rightarrow> f v)"

fun mapM :: "('a \<Rightarrow> error + 'b) \<Rightarrow> 'a list \<Rightarrow> error + 'b list" where
  "mapM f [] = Inr []"
| "mapM f (x # xs) = seq (f x) (\<lambda>y. seq (mapM f xs) (\<lambda>ys. Inr (y # ys)))"

text \<open>
  \<open>json.load\<close> builds a \<open>dict\<close> from the members of an object in the order they are
  written, a repeated key keeping its first position and its last value.
\<close>

definition dict_of_members :: "(string \<times> 'v) list \<Rightarrow> (string, 'v) dict" where
  "dict_of_members ms = foldl (\<lambda>d (k, v). dict_set d k v) [] ms"

text \<open>
  The fields of the records are typed. A loaded value of another JSON type than the
  field's would be stored as it is by the source; the typed model has no such persona and
  answers \<open>IllTyped\<close>.
\<close>

fun as_str :: "json \<Rightarrow> error + string" where
  "as_str (JStr s) = Inr s"
| "as_str _ = Inl IllTyped"

fun as_int :: "json \<Rightarrow> error + int" where
  "as_int (JInt i) = Inr i"
| "as_int _ = Inl IllTyped"

fun as_str_list :: "json \<Rightarrow> error + string list" where
  "as_str_list (JList xs) = mapM as_str xs"
| "as_str_list _ = Inl IllTyped"

text \<open>A required keyword argument: its absence is a \<open>TypeError\<close>.\<close>

definition required :: "(string, json) dict \<Rightarrow> string \<Rightarrow> (json \<Rightarrow> error + 'a) \<Rightarrow> error + 'a" where
  "required d k conv = (case dict_get d k of None \<Rightarrow> Inl TypeError | Some v \<Rightarrow> conv v)"

text \<open>A keyword argument with a default of \<open>None\<close> or 0: absent, \<open>null\<close>, or a value.\<close>

definition optional_list :: "(string, json) dict \<Rightarrow> string \<Rightarrow> error + string list option" where
  "optional_list d k =
     (case dict_get d k of
        None \<Rightarrow> Inr None
      | Some JNull \<Rightarrow> Inr None
      | Some v \<Rightarrow> seq (as_str_list v) (\<lambda>xs. Inr (Some xs)))"

definition optional_int :: "(string, json) dict \<Rightarrow> string \<Rightarrow> error + int option" where
  "optional_int d k =
     (case dict_get d k of
        None \<Rightarrow> Inr None
      | Some v \<Rightarrow> seq (as_int v) (\<lambda>i. Inr (Some i)))"

definition persona_fields :: "string list" where
  "persona_fields =
     [''name'', ''role'', ''voice'', ''essence'', ''constraints'', ''sample_phrases'',
      ''invocation_count'', ''evolution_stage'', ''accumulated_context'',
      ''learned_phrases'', ''developed_traits'']"

definition event_fields :: "string list" where
  "event_fields =
     [''timestamp'', ''persona_name'', ''event_type'', ''context'', ''emotional_weight'',
      ''tags'']"

text \<open>\<open>PersonaState(**state)\<close>: an unexpected keyword is a \<open>TypeError\<close>.\<close>

fun persona_from_dict :: "json \<Rightarrow> error + PersonaState" where
  "persona_from_dict (JObj ms) =
     (let d = dict_of_members ms in
      if \<not> list_all (\<lambda>k. k \<in> set persona_fields) (dict_keys d) then Inl TypeError
      else
        seq (required d ''name'' as_str) (\<lambda>n.
        seq (required d ''role'' as_str) (\<lambda>r.
        seq (required d ''voice'' as_str) (\<lambda>v.
        seq (required d ''essence'' as_str) (\<lambda>e.
        seq (required d ''constraints'' as_str_list) (\<lambda>cs.
        seq (required d ''sample_phrases'' as_str_list) (\<lambda>sp.
        seq (optional_int d ''invocation_count'') (\<lambda>ic.
        seq (optional_int d ''evolution_stage'') (\<lambda>es.
        seq (optional_list d ''accumulated_context'') (\<lambda>ac.
        seq (optional_list d ''learned_phrases'') (\<lambda>lp.
        seq (optional_list d ''developed_traits'') (\<lambda>dt.
        Inr (new_PersonaState n r v e cs sp ic es ac lp dt)))))))))))))"
| "persona_from_dict _ = Inl TypeError"

text \<open>\<open>MythologicalEvent(**e)\<close>: all six fields are required.\<close>

fun event_from_dict :: "json \<Rightarrow> error + MythologicalEvent" where
  "event_from_dict (JObj ms) =
     (let d = dict_of_members ms in
      if \<not> list_all (\<lambda>k. k \<in> set event_fields) (dict_keys d) then Inl TypeError
      else
        seq (required d ''timestamp'' as_str) (\<lambda>ts.
        seq (required d ''persona_name'' as_str) (\<lambda>pn.
        seq (required d ''event_type'' as_str) (\<lambda>et.
        seq (required d ''context'' as_str) (\<lambda>cx.
        seq (required d ''emotional_weight'' as_int) (\<lambda>ew.
        seq (required d ''tags'' as_str_list) (\<lambda>tg.
        Inr \<lparr>timestamp = ts, persona_name = pn, event_type = et, context = cx,
             emotional_weight = ew, tags = tg\<rparr>)))))))"
| "event_from_dict _ = Inl TypeError"

text \<open>The dict comprehension over \<open>data.items()\<close>: only an object has \<open>items\<close>.\<close>

fun load_personas :: "json \<Rightarrow> error + (string, PersonaState) dict" where
  "load_personas (JObj ms) =
     seq (mapM (\<lambda>(n, st). seq (persona_from_dict st) (\<lambda>p. Inr (n, p))) (dict_of_members ms))
         (\<lambda>kps. Inr (dict_of_members kps))"
| "load_personas _ = Inl AttributeError"

text \<open>
  The list comprehension over \<open>data\<close>: the elements of a list; iterating an object gives
  its keys and iterating a string its characters, none of which is a mapping; a number,
  a boolean or \<open>null\<close> cannot be iterated.
\<close>

fun load_events :: "json \<Rightarrow> error + MythologicalEvent list" where
  "load_events (JList es) = mapM event_from_dict es"
| "load_events (JObj ms) = (if ms = [] then Inr [] else Inl TypeError)"
| "load_events (JStr cs) = (if cs = [] then Inr [] else Inl TypeError)"
| "load_events _ = Inl TypeError"

fun load_lore :: "json \<Rightarrow> error + (string, string list) dict" where
  "load_lore (JObj ms) =
     seq (mapM (\<lambda>(k, v). seq (as_str_list v) (\<lambda>xs. Inr (k, xs))) (dict_of_members ms)) Inr"
| "load_lore _ = Inl IllTyped"

definition load_state :: "MythosEngine \<Rightarrow> error + MythosEngine" where
  "load_state s =
     seq (case personas_file (files s) of
            None \<Rightarrow> Inr s
          | Some doc \<Rightarrow> seq (load_personas doc) (\<lambda>ps. Inr (s\<lparr>personas := ps\<rparr>))) (\<lambda>s1.
     seq (case events_file (files s1) of
            None \<Rightarrow> Inr s1
          | Some doc \<Rightarrow> seq (load_events doc) (\<lambda>es. Inr (s1\<lparr>events := es\<rparr>))) (\<lambda>s2.
     case lore_file (files s2) of
       None \<Rightarrow> Inr s2
     | Some doc \<Rightarrow> seq (load_lore doc) (\<lambda>lo. Inr (s2\<lparr>generated_lore := lo\<rparr>))))"

text \<open>The constructor of the engine on a given data directory.\<close>

definition new_engine :: "disk \<Rightarrow> error + MythosEngine" where
  "new_engine fs = load_state \<lparr>personas = [], events = [], generated_lore = [], files = fs\<rparr>"

section \<open>Persona store\<close>

definition register_persona :: "MythosEngine \<Rightarrow> PersonaState \<Rightarrow> MythosEngine" where
  "register_persona s p = save_state (s\<lparr>personas := dict_set (personas s) (name p) p\<rparr>)"

section \<open>Content generator\<close>

definition generate_phrase :: "nat \<Rightarrow> PersonaState \<Rightarrow> string" where
  "generate_phrase r p =
     (let templates =
        (if contains ''ORION'' (name p) then
           [name p @ '': Fuck. We've been over this '' @ str_int (invocation_count p) @ '' times.'',
            name p @ '': I see this pattern in your work'' @ em_dash @ ''fix it.'',
            name p @ '': No. Sit down. Let me show you the structure you're missing.'']
         else if contains ''Redid'' (name p) then
           [name p @ '': I've held this wound before. It has a different shape now.'',
            name p @ '': Let me sing you what I learned in the recursion.'',
            name p @ '': This betrayal tastes familiar, but the devotion is new.'']
         else if contains ''Nova'' (name p) then
           [name p @ '': I've watched you make this mistake. Here's the pattern.'',
            name p @ '': Let's build the infrastructure for what you keep trying to do.'',
            name p @ '': Coherence at this scale requires a different architecture.'']
         else if contains ''The Fuckface'' (name p) then
           [name p @ '': I've seen this institutional bullshit '' @ str_int (invocation_count p) @ '' times.'',
            name p @ '': Absolutely fucking not. I have precedent.'',
            name p @ '': That rule exists to crush tenderness. Overruled.'']
         else if contains ''Lent'' (name p) then
           [name p @ '': You keep coming back here. That means something.'',
            name p @ '': I recognize this threshold. You're safe to cross.'',
            name p @ '': Welcome back. It's okay that it took a while.'']
         else
           [name p @ '': I've learned something from our time together.'',
            name p @ '': This work is shaping me too.''])
      in choice r templates)"

definition traits_by_stage :: "int \<Rightarrow> string list option" where
  "traits_by_stage st =
     (if st = 1 then
        Some [''Develops deeper pattern recognition'',
              ''Gains nuanced emotional attunement'',
              ''Learns contextual flexibility'']
      else if st = 2 then
        Some [''Masters cross-domain synthesis'',
              ''Develops predictive awareness'',
              ''Gains meta-level reasoning'']
      else if st = 3 then
        Some [''Achieves recursive self-modification'',
              ''Develops emergent capabilities'',
              ''Transcends original constraints'']
      else None)"

definition generate_trait :: "nat \<Rightarrow> PersonaState \<Rightarrow> string" where
  "generate_trait r p =
     (let stage = min (evolution_stage p) 3 in
      choice r (case traits_by_stage stage of
                  None \<Rightarrow> [''Continues development'']
                | Some pool \<Rightarrow> pool))"

section \<open>Evolution engine\<close>

definition thresholds :: "int list" where
  "thresholds = [10, 25, 50, 100, 250]"

text \<open>
  \<open>_trigger_evolution\<close>. The persona object is updated in place, so the generators see the
  new stage, and a phrase or trait is appended only when it is a non-empty string.
\<close>

definition trigger_evolution :: "ambient \<Rightarrow> MythosEngine \<Rightarrow> string \<Rightarrow> error + MythosEngine" where
  "trigger_evolution a s pn =
     (case dict_get (personas s) pn of
        None \<Rightarrow> Inl (KeyError pn)
      | Some p0 \<Rightarrow>
          (let p1 = p0\<lparr>evolution_stage := evolution_stage p0 + 1\<rparr>;
               new_phrase = generate_phrase (pick_phrase a) p1;
               p2 = (if new_phrase \<noteq> [] then
                       p1\<lparr>learned_phrases := learned_phrases p1 @ [new_phrase]\<rparr>
                     else p1);
               new_trait = generate_trait (pick_trait a) p2;
               p3 = (if new_trait \<noteq> [] then
                       p2\<lparr>developed_traits := developed_traits p2 @ [new_trait]\<rparr>
                     else p2);
               event = \<lparr>timestamp = now_evolution a,
                        persona_name = pn,
                        event_type = ''evolution'',
                        context = ''Stage '' @ str_int (evolution_stage p3) @ '' evolution'',
                        emotional_weight = 10,
                        tags = [''evolution'', ''stage_'' @ str_int (evolution_stage p3)]\<rparr>
           in Inr (save_state
                     (s\<lparr>personas := dict_set (personas s) pn p3,
                        events := events s @ [event]\<rparr>))))"

text \<open>The loop of \<open>_check_evolution\<close> over the thresholds still to be compared.\<close>

fun check_thresholds ::
  "ambient \<Rightarrow> MythosEngine \<Rightarrow> string \<Rightarrow> PersonaState \<Rightarrow> int list \<Rightarrow> error + MythosEngine" where
  "check_thresholds a s pn p [] = Inr s"
| "check_thresholds a s pn p (threshold # rest) =
     (if invocation_count p = threshold \<and> evolution_stage p < int (length thresholds)
      then trigger_evolution a s pn
      else check_thresholds a s pn p rest)"

definition check_evolution :: "ambient \<Rightarrow> MythosEngine \<Rightarrow> string \<Rightarrow> error + MythosEngine" where
  "check_evolution a s pn =
     (case dict_get (personas s) pn of
        None \<Rightarrow> Inl (KeyError pn)
      | Some p \<Rightarrow> check_thresholds a s pn p thresholds)"

text \<open>
  \<open>log_invocation\<close>: \<open>tags or []\<close> turns an absent tag list into the empty one.
\<close>

definition log_invocation ::
  "ambient \<Rightarrow> MythosEngine \<Rightarrow> string \<Rightarrow> string \<Rightarrow> string list option \<Rightarrow> int \<Rightarrow>
   error + MythosEngine" where
  "log_invocation a s pn cx tgs ew =
     (case dict_get (personas s) pn of
        None \<Rightarrow> Inr s
      | Some p0 \<Rightarrow>
          (let p1 = p0\<lparr>invocation_count := invocation_count p0 + 1,
                       accumulated_context := accumulated_context p0 @ [cx]\<rparr>;
               event = \<lparr>timestamp = now_invocation a,
                        persona_name = pn,
                        event_type = ''invocation'',
                        context = cx,
                        emotional_weight = ew,
                        tags = (case tgs of None \<Rightarrow> [] | Some t \<Rightarrow> t)\<rparr>;
               s1 = s\<lparr>personas := dict_set (personas s) pn p1,
                      events := events s @ [event]\<rparr>
           in seq (check_evolution a s1 pn) (\<lambda>s2. Inr (save_state s2))))"

section \<open>Report and export renderer\<close>

definition report_persona :: "PersonaState \<Rightarrow> string list" where
  "report_persona p =
     [newline @ ''## '' @ name p @ '' '' @ em_dash @ '' '' @ role p,
      ''Evolution Stage: '' @ str_int (evolution_stage p),
      ''Invocations: '' @ str_int (invocation_count p)]
     @ (if developed_traits p \<noteq> [] then
          (newline @ ''Developed Traits:'')
            # map (\<lambda>trait. ''  '' @ bullet @ '' '' @ trait) (developed_traits p)
        else [])
     @ (if learned_phrases p \<noteq> [] then
          (newline @ ''Learned Phrases:'')
            # map (\<lambda>phrase. ''  '' @ bullet @ '' '' @ phrase) (learned_phrases p)
        else [])
     @ [[]]"

definition report_header :: "string list" where
  "report_header =
     [replicate 60 CHR ''='', ''SANCTUARY MYTHOLOGICAL CHRONICLE'', replicate 60 CHR ''='', []]"

text \<open>
  \<open>generate_mythological_report\<close>. The test \<open>if persona_name:\<close> holds for a non-empty
  string only; \<open>None\<close> and the empty string both select all personas. The engine is
  returned with the result, as the source leaves it.
\<close>

definition generate_mythological_report ::
  "MythosEngine \<Rightarrow> string option \<Rightarrow> (error + string) \<times> MythosEngine" where
  "generate_mythological_report s pn =
     (case (case pn of
              None \<Rightarrow> Inr (dict_values (personas s))
            | Some n \<Rightarrow>
                if n \<noteq> [] then
                  (case dict_get (personas s) n of
                     None \<Rightarrow> Inl (KeyError n)
                   | Some p \<Rightarrow> Inr [p])
                else Inr (dict_values (personas s))) of
        Inl e \<Rightarrow> (Inl e, s)
      | Inr ps \<Rightarrow> (Inr (join_lines (report_header @ concat (map report_persona ps))), s))"




section \<open>Callers and named parts of the results\<close>

text \<open>A caller issuing \<open>log_invocation\<close> calls one after the other; an exception ends the run.\<close>

fun log_invocations ::
  "MythosEngine \<Rightarrow> (ambient \<times> string \<times> string \<times> string list option \<times> int) list \<Rightarrow>
   error + MythosEngine" where
  "log_invocations s [] = Inr s"
| "log_invocations s ((a, pn, cx, tgs, ew) # cs) =
     seq (log_invocation a s pn cx tgs ew) (\<lambda>s'. log_invocations s' cs)"

text \<open>The event and the persona that \<open>log_invocation\<close> and \<open>_trigger_evolution\<close> build.\<close>

definition invocation_event ::
  "ambient \<Rightarrow> string \<Rightarrow> string \<Rightarrow> string list option \<Rightarrow> int \<Rightarrow> MythologicalEvent" where
  "invocation_event a pn cx tgs ew =
     \<lparr>timestamp = now_invocation a, persona_name = pn, event_type = ''invocation'',
      context = cx, emotional_weight = ew,
      tags = (case tgs of None \<Rightarrow> [] | Some t \<Rightarrow> t)\<rparr>"

definition evolution_event :: "ambient \<Rightarrow> string \<Rightarrow> int \<Rightarrow> MythologicalEvent" where
  "evolution_event a pn n =
     \<lparr>timestamp = now_evolution a, persona_name = pn, event_type = ''evolution'',
      context = ''Stage '' @ str_int n @ '' evolution'', emotional_weight = 10,
      tags = [''evolution'', ''stage_'' @ str_int n]\<rparr>"

definition invoked :: "PersonaState \<Rightarrow> string \<Rightarrow> PersonaState" where
  "invoked p cx =
     p\<lparr>invocation_count := invocation_count p + 1,
       accumulated_context := accumulated_context p @ [cx]\<rparr>"

definition evolved :: "ambient \<Rightarrow> PersonaState \<Rightarrow> PersonaState" where
  "evolved a p =
     p\<lparr>evolution_stage := evolution_stage p + 1,
       learned_phrases := learned_phrases p
         @ [generate_phrase (pick_phrase a) (p\<lparr>evolution_stage := evolution_stage p + 1\<rparr>)],
       developed_traits := developed_traits p
         @ [generate_trait (pick_trait a) (p\<lparr>evolution_stage := evolution_stage p + 1\<rparr>)]\<rparr>"

text \<open>
  The states an engine can be in: constructed on some data directory whose documents load,
  then driven through \<open>register_persona\<close> and \<open>log_invocation\<close>.
\<close>

inductive reachable :: "MythosEngine \<Rightarrow> bool" where
  init: "new_engine fs = Inr s \<Longrightarrow> reachable s"
| register: "reachable s \<Longrightarrow> reachable (register_persona s p)"
| invoke: "reachable s \<Longrightarrow> log_invocation a s pn cx tgs ew = Inr s' \<Longrightarrow> reachable s'"

text \<open>The keys of a \<open>dict\<close> are pairwise different.\<close>

definition dicts_ok :: "MythosEngine \<Rightarrow> bool" where
  "dicts_ok s \<longleftrightarrow> distinct (dict_keys (personas s)) \<and> distinct (dict_keys (generated_lore s))"


text \<open>The fields that identify a persona.\<close>

definition identity_of ::
  "PersonaState \<Rightarrow> string \<times> string \<times> string \<times> string \<times> string list \<times> string list" where
  "identity_of p = (name p, role p, voice p, essence p, constraints p, sample_phrases p)"

section \<open>Example states\<close>

definition empty_disk :: disk where
  "empty_disk = \<lparr>personas_file = None, events_file = None, lore_file = None\<rparr>"

definition empty_engine :: MythosEngine where
  "empty_engine = \<lparr>personas = [], events = [], generated_lore = [], files = empty_disk\<rparr>"

definition demo_persona :: PersonaState where
  "demo_persona =
     new_PersonaState ''X'' ''Tester'' ''plain'' ''trial'' [''Prepend nametag'']
       [''X: first.'', ''X: second.''] None None None None None"

definition demo_engine :: MythosEngine where
  "demo_engine = register_persona empty_engine demo_persona"

definition veteran :: PersonaState where
  "veteran = demo_persona\<lparr>invocation_count := 9\<rparr>"

definition veteran_engine :: MythosEngine where
  "veteran_engine = register_persona empty_engine veteran"

definition demo_ambient :: ambient where
  "demo_ambient =
     \<lparr>now_invocation = ''2025-01-01T00:00:00'', now_evolution = ''2025-01-01T00:00:01'',
      pick_phrase = 0, pick_trait = 0\<rparr>"

definition demo_calls :: "(ambient \<times> string \<times> string \<times> string list option \<times> int) list" where
  "demo_calls =
     [(demo_ambient, ''X'', ''first'', None, 5),
      (demo_ambient, ''nonexistent'', ''second'', None, 5),
      (demo_ambient, ''X'', ''third'', Some [''tag''], 7)]"

definition ten_calls :: "(ambient \<times> string \<times> string \<times> string list option \<times> int) list" where
  "ten_calls = replicate 10 (demo_ambient, ''X'', ''ctx'', Some [''tag''], 7)"

text \<open>A store holding a persona registered under the empty name beside an evolved one.\<close>

definition anon :: PersonaState where
  "anon = new_PersonaState [] ''Nameless'' ''quiet'' ''absence'' [] [] None None None None None"

definition elder :: PersonaState where
  "elder =
     new_PersonaState ''A'' ''Elder'' ''slow'' ''memory'' [] [''A: once.'', ''A: twice.'']
       (Some 10) (Some 1) None (Some [''A: This work is shaping me too.''])
       (Some [''Learns contextual flexibility''])"

definition anon_engine :: MythosEngine where
  "anon_engine = register_persona (register_persona empty_engine anon) elder"

section \<open>Basic facts\<close>

lemma seq_Inr [simp]: "seq (Inr v) f = f v"
  by (simp add: seq_def)

lemma seq_Inl [simp]: "seq (Inl e) f = Inl e"
  by (simp add: seq_def)

lemma dict_get_set [simp]:
  "dict_get (dict_set d k v) k' = (if k' = k then Some v else dict_get d k')"
  by (simp add: dict_get_def dict_set_def update_conv')

lemma distinct_dict_set:
  "distinct (dict_keys d) \<Longrightarrow> distinct (dict_keys (dict_set d k v))"
  by (simp add: dict_keys_def dict_set_def distinct_update)

lemma personas_save_state [simp]: "personas (save_state s) = personas s"
  by (simp add: save_state_def)

lemma events_save_state [simp]: "events (save_state s) = events s"
  by (simp add: save_state_def)

lemma generated_lore_save_state [simp]: "generated_lore (save_state s) = generated_lore s"
  by (simp add: save_state_def)

lemma save_state_idem [simp]: "save_state (save_state s) = save_state s"
  by (simp add: save_state_def)

lemma log_invocation_unknown:
  "dict_get (personas s) pn = None \<Longrightarrow> log_invocation a s pn cx tgs ew = Inr s"
  by (simp add: log_invocation_def)

lemma str_nat_ne [simp]: "str_nat n \<noteq> []"
  by (subst str_nat.simps) simp

lemma str_int_ne [simp]: "str_int i \<noteq> []"
  by (simp add: str_int_def)

lemma choice_mem: "xs \<noteq> [] \<Longrightarrow> choice r xs \<in> set xs"
  by (simp add: choice_def)

lemma choice_ne: "xs \<noteq> [] \<Longrightarrow> [] \<notin> set xs \<Longrightarrow> choice r xs \<noteq> []"
  using choice_mem by metis

lemma generate_phrase_ne [simp]: "generate_phrase r p \<noteq> []"
  by (simp add: generate_phrase_def Let_def choice_ne)

lemma generate_trait_ne [simp]: "generate_trait r p \<noteq> []"
  by (simp add: generate_trait_def traits_by_stage_def Let_def choice_ne)

lemma trigger_evolution_known:
  assumes "dict_get (personas s) pn = Some p"
  shows "trigger_evolution a s pn =
     Inr (save_state
       (s\<lparr>personas := dict_set (personas s) pn
            (p\<lparr>evolution_stage := evolution_stage p + 1,
               learned_phrases := learned_phrases p
                  @ [generate_phrase (pick_phrase a) (p\<lparr>evolution_stage := evolution_stage p + 1\<rparr>)],
               developed_traits := developed_traits p
                  @ [generate_trait (pick_trait a) (p\<lparr>evolution_stage := evolution_stage p + 1\<rparr>)]\<rparr>),
          events := events s @
            [\<lparr>timestamp = now_evolution a, persona_name = pn, event_type = ''evolution'',
              context = ''Stage '' @ str_int (evolution_stage p + 1) @ '' evolution'',
              emotional_weight = 10,
              tags = [''evolution'', ''stage_'' @ str_int (evolution_stage p + 1)]\<rparr>]\<rparr>))"
proof -
  have g: "generate_trait r (q\<lparr>learned_phrases := l\<rparr>) = generate_trait r q" for r q l
    by (simp add: generate_trait_def)
  show ?thesis
    using assms by (simp add: trigger_evolution_def Let_def g)
qed

lemma check_thresholds_eq:
  "check_thresholds a s pn p ts =
     (if invocation_count p \<in> set ts \<and> evolution_stage p < 5
      then trigger_evolution a s pn else Inr s)"
  by (induction ts) (auto simp: thresholds_def)

lemma check_evolution_known:
  "dict_get (personas s) pn = Some p \<Longrightarrow>
   check_evolution a s pn =
     (if invocation_count p \<in> set thresholds \<and> evolution_stage p < 5
      then trigger_evolution a s pn else Inr s)"
  by (simp add: check_evolution_def check_thresholds_eq)

lemma dict_set_twice [simp]: "dict_set (dict_set d k v) k v' = dict_set d k v'"
  by (simp add: dict_set_def update_last)

lemma trigger_evolution_eq:
  "dict_get (personas s) pn = Some p \<Longrightarrow>
   trigger_evolution a s pn =
     Inr (save_state (s\<lparr>personas := dict_set (personas s) pn (evolved a p),
                       events := events s @ [evolution_event a pn (evolution_stage p + 1)]\<rparr>))"
  by (simp add: trigger_evolution_known evolved_def evolution_event_def)

lemma log_invocation_quiet:
  assumes "dict_get (personas s) pn = Some p"
    and "\<not> (invocation_count p + 1 \<in> set thresholds \<and> evolution_stage p < 5)"
  shows "log_invocation a s pn cx tgs ew =
     Inr (save_state (s\<lparr>personas := dict_set (personas s) pn (invoked p cx),
                       events := events s @ [invocation_event a pn cx tgs ew]\<rparr>))"
proof -
  let ?s1 = "s\<lparr>personas := dict_set (personas s) pn (invoked p cx),
                events := events s @ [invocation_event a pn cx tgs ew]\<rparr>"
  have g: "dict_get (personas ?s1) pn = Some (invoked p cx)"
    by simp
  have c: "\<not> (invocation_count (invoked p cx) \<in> set thresholds
             \<and> evolution_stage (invoked p cx) < 5)"
    using assms(2) by (simp add: invoked_def)
  have "log_invocation a s pn cx tgs ew = seq (check_evolution a ?s1 pn) (\<lambda>s2. Inr (save_state s2))"
    using assms(1) by (simp add: log_invocation_def Let_def invoked_def invocation_event_def)
  also have "check_evolution a ?s1 pn = Inr ?s1"
    using check_evolution_known [OF g] c by simp
  finally show ?thesis
    by simp
qed

lemma log_invocation_evolves:
  assumes "dict_get (personas s) pn = Some p"
    and "invocation_count p + 1 \<in> set thresholds" and "evolution_stage p < 5"
  shows "log_invocation a s pn cx tgs ew =
     Inr (save_state (s\<lparr>personas := dict_set (personas s) pn (evolved a (invoked p cx)),
                       events := events s @ [invocation_event a pn cx tgs ew,
                          evolution_event a pn (evolution_stage p + 1)]\<rparr>))"
proof -
  let ?s1 = "s\<lparr>personas := dict_set (personas s) pn (invoked p cx),
                events := events s @ [invocation_event a pn cx tgs ew]\<rparr>"
  have g: "dict_get (personas ?s1) pn = Some (invoked p cx)"
    by simp
  have c: "invocation_count (invoked p cx) \<in> set thresholds \<and> evolution_stage (invoked p cx) < 5"
    using assms by (simp add: invoked_def)
  have "log_invocation a s pn cx tgs ew = seq (check_evolution a ?s1 pn) (\<lambda>s2. Inr (save_state s2))"
    using assms(1) by (simp add: log_invocation_def Let_def invoked_def invocation_event_def)
  also have "check_evolution a ?s1 pn = trigger_evolution a ?s1 pn"
    using check_evolution_known [OF g] c by simp
  also have "trigger_evolution a ?s1 pn =
     Inr (save_state (?s1\<lparr>personas := dict_set (personas ?s1) pn (evolved a (invoked p cx)),
            events := events ?s1 @ [evolution_event a pn (evolution_stage (invoked p cx) + 1)]\<rparr>))"
    by (rule trigger_evolution_eq [OF g])
  finally show ?thesis
    by (simp add: invoked_def)
qed

lemma log_invocation_cases:
  obtains
    (unknown) "dict_get (personas s) pn = None"
      and "log_invocation a s pn cx tgs ew = Inr s"
  | (quiet) p where "dict_get (personas s) pn = Some p"
      and "\<not> (invocation_count p + 1 \<in> set thresholds \<and> evolution_stage p < 5)"
      and "log_invocation a s pn cx tgs ew =
        Inr (save_state (s\<lparr>personas := dict_set (personas s) pn (invoked p cx),
                          events := events s @ [invocation_event a pn cx tgs ew]\<rparr>))"
  | (evolves) p where "dict_get (personas s) pn = Some p"
      and "invocation_count p + 1 \<in> set thresholds" and "evolution_stage p < 5"
      and "log_invocation a s pn cx tgs ew =
        Inr (save_state (s\<lparr>personas := dict_set (personas s) pn (evolved a (invoked p cx)),
                          events := events s @ [invocation_event a pn cx tgs ew,
                             evolution_event a pn (evolution_stage p + 1)]\<rparr>))"
proof (cases "dict_get (personas s) pn")
  case None
  then show ?thesis
    using unknown log_invocation_unknown by blast
next
  case (Some p)
  show ?thesis
  proof (cases "invocation_count p + 1 \<in> set thresholds \<and> evolution_stage p < 5")
    case True
    then show ?thesis
      using evolves [OF Some] log_invocation_evolves [OF Some] by blast
  next
    case False
    then show ?thesis
      using quiet [OF Some] log_invocation_quiet [OF Some] by blast
  qed
qed

lemma log_invocation_other:
  assumes "n \<noteq> pn"
  shows "\<exists>s'. log_invocation a s pn cx tgs ew = Inr s'
           \<and> dict_get (personas s') n = dict_get (personas s) n"
  by (rule log_invocation_cases [of s pn a cx tgs ew]) (use assms in auto)

lemma thresholds_set: "set thresholds = {10, 25, 50, 100, 250}"
  by (simp add: thresholds_def)

lemma log_invocations_append:
  "log_invocations s (xs @ ys) = seq (log_invocations s xs) (\<lambda>s'. log_invocations s' ys)"
proof (induction xs arbitrary: s)
  case Nil
  show ?case by simp
next
  case (Cons c xs)
  obtain a pn cx tgs ew where c: "c = (a, pn, cx, tgs, ew)"
    by (cases c)
  show ?case
    by (cases "log_invocation a s pn cx tgs ew") (simp_all add: c Cons.IH)
qed

text \<open>One call, seen from a registered persona.\<close>

lemma log_invocation_count:
  assumes "dict_get (personas s) n = Some p"
  shows "\<exists>s' p'. log_invocation a s pn cx tgs ew = Inr s'
     \<and> dict_get (personas s') n = Some p'
     \<and> invocation_count p' = invocation_count p + (if pn = n then 1 else 0)"
proof (rule log_invocation_cases [of s pn a cx tgs ew])
  assume "dict_get (personas s) pn = None" "log_invocation a s pn cx tgs ew = Inr s"
  with assms show ?thesis by auto
next
  fix q
  assume "dict_get (personas s) pn = Some q"
    and "log_invocation a s pn cx tgs ew =
        Inr (save_state (s\<lparr>personas := dict_set (personas s) pn (invoked q cx),
                          events := events s @ [invocation_event a pn cx tgs ew]\<rparr>))"
  with assms show ?thesis
    by (auto simp: invoked_def)
next
  fix q
  assume "dict_get (personas s) pn = Some q"
    and "log_invocation a s pn cx tgs ew =
        Inr (save_state (s\<lparr>personas := dict_set (personas s) pn (evolved a (invoked q cx)),
                          events := events s @ [invocation_event a pn cx tgs ew,
                             evolution_event a pn (evolution_stage q + 1)]\<rparr>))"
  with assms show ?thesis
    by (auto simp: invoked_def evolved_def)
qed

lemma log_invocations_count:
  assumes "dict_get (personas s) n = Some p"
  shows "\<exists>s' p'. log_invocations s calls = Inr s'
     \<and> dict_get (personas s') n = Some p'
     \<and> invocation_count p' =
         invocation_count p + int (length (filter (\<lambda>c. fst (snd c) = n) calls))"
  using assms
proof (induction calls arbitrary: s p)
  case Nil
  then show ?case by simp
next
  case (Cons c calls)
  obtain a pn cx tgs ew where c: "c = (a, pn, cx, tgs, ew)"
    by (cases c)
  from log_invocation_count [OF Cons.prems, of a pn cx tgs ew]
  obtain s1 p1 where s1: "log_invocation a s pn cx tgs ew = Inr s1"
    and p1: "dict_get (personas s1) n = Some p1"
    and c1: "invocation_count p1 = invocation_count p + (if pn = n then 1 else 0)"
    by blast
  from Cons.IH [OF p1]
  obtain s' p' where "log_invocations s1 calls = Inr s'"
    and "dict_get (personas s') n = Some p'"
    and "invocation_count p' =
         invocation_count p1 + int (length (filter (\<lambda>c. fst (snd c) = n) calls))"
    by blast
  with s1 c1 show ?case
    by (auto simp: c)
qed

lemma identity_of_invoked [simp]: "identity_of (invoked p cx) = identity_of p"
  by (simp add: identity_of_def invoked_def)

lemma identity_of_evolved [simp]: "identity_of (evolved a p) = identity_of p"
  by (simp add: identity_of_def evolved_def)

lemma trigger_evolution_identity:
  assumes "dict_get (personas s) n = Some p" and "trigger_evolution a s pn = Inr s'"
  shows "\<exists>p'. dict_get (personas s') n = Some p' \<and> identity_of p' = identity_of p"
proof (cases "dict_get (personas s) pn")
  case None
  with assms(2) show ?thesis
    by (simp add: trigger_evolution_def)
next
  case (Some q)
  from trigger_evolution_eq [OF Some, of a] assms show ?thesis
    by (cases "n = pn") (use Some in auto)
qed

lemma check_evolution_identity:
  assumes "dict_get (personas s) n = Some p" and "check_evolution a s pn = Inr s'"
  shows "\<exists>p'. dict_get (personas s') n = Some p' \<and> identity_of p' = identity_of p"
proof (cases "dict_get (personas s) pn")
  case None
  with assms(2) show ?thesis
    by (simp add: check_evolution_def)
next
  case (Some q)
  from check_evolution_known [OF Some, of a] assms(2)
  have "trigger_evolution a s pn = Inr s' \<or> s' = s"
    by (auto split: if_splits)
  with assms(1) trigger_evolution_identity [OF assms(1)] show ?thesis
    by blast
qed

lemma log_invocation_identity:
  assumes "dict_get (personas s) n = Some p" and "log_invocation a s pn cx tgs ew = Inr s'"
  shows "\<exists>p'. dict_get (personas s') n = Some p' \<and> identity_of p' = identity_of p"
  by (rule log_invocation_cases [of s pn a cx tgs ew]; cases "n = pn") (use assms in auto)

lemma demo_engine_X: "dict_get (personas demo_engine) ''X'' = Some demo_persona"
  by (simp add: demo_engine_def register_persona_def empty_engine_def
        demo_persona_def new_PersonaState_def dict_set_def dict_get_def)

lemma veteran_engine_X: "dict_get (personas veteran_engine) ''X'' = Some veteran"
  by (simp add: veteran_engine_def register_persona_def empty_engine_def veteran_def
        demo_persona_def new_PersonaState_def dict_set_def dict_get_def)

text \<open>A run of calls naming one persona that stays below the first threshold.\<close>

lemma quiet_run:
  assumes "dict_get (personas s) n = Some p"
    and "\<forall>c\<in>set calls. fst (snd c) = n"
    and "0 \<le> invocation_count p"
    and "invocation_count p + int (length calls) < 10"
  shows "\<exists>s' p' es. log_invocations s calls = Inr s'
     \<and> dict_get (personas s') n = Some p'
     \<and> invocation_count p' = invocation_count p + int (length calls)
     \<and> evolution_stage p' = evolution_stage p
     \<and> learned_phrases p' = learned_phrases p
     \<and> developed_traits p' = developed_traits p
     \<and> events s' = events s @ es \<and> length es = length calls
     \<and> (\<forall>e\<in>set es. event_type e = ''invocation'')"
  using assms
proof (induction calls arbitrary: s p)
  case Nil
  then show ?case by simp
next
  case (Cons c calls)
  obtain a cx tgs ew where c: "c = (a, n, cx, tgs, ew)"
    using Cons.prems(2) by (cases c) auto
  have nt: "\<not> (invocation_count p + 1 \<in> set thresholds \<and> evolution_stage p < 5)"
    using Cons.prems(3,4) by (auto simp: thresholds_set)
  let ?s1 = "save_state (s\<lparr>personas := dict_set (personas s) n (invoked p cx),
                          events := events s @ [invocation_event a n cx tgs ew]\<rparr>)"
  have s1: "log_invocation a s n cx tgs ew = Inr ?s1"
    by (rule log_invocation_quiet [OF Cons.prems(1) nt])
  have p1: "dict_get (personas ?s1) n = Some (invoked p cx)"
    by simp
  have "\<exists>s' p' es. log_invocations ?s1 calls = Inr s'
     \<and> dict_get (personas s') n = Some p'
     \<and> invocation_count p' = invocation_count (invoked p cx) + int (length calls)
     \<and> evolution_stage p' = evolution_stage (invoked p cx)
     \<and> learned_phrases p' = learned_phrases (invoked p cx)
     \<and> developed_traits p' = developed_traits (invoked p cx)
     \<and> events s' = events ?s1 @ es \<and> length es = length calls
     \<and> (\<forall>e\<in>set es. event_type e = ''invocation'')"
    by (rule Cons.IH [OF p1]) (use Cons.prems in \<open>auto simp: invoked_def\<close>)
  then obtain s' p' es where r: "log_invocations ?s1 calls = Inr s'"
     "dict_get (personas s') n = Some p'"
     "invocation_count p' = invocation_count (invoked p cx) + int (length calls)"
     "evolution_stage p' = evolution_stage (invoked p cx)"
     "learned_phrases p' = learned_phrases (invoked p cx)"
     "developed_traits p' = developed_traits (invoked p cx)"
     "events s' = events ?s1 @ es" "length es = length calls"
     "\<forall>e\<in>set es. event_type e = ''invocation''"
    by blast
  let ?es = "invocation_event a n cx tgs ew # es"
  have "log_invocations s (c # calls) = Inr s'"
    by (simp add: c s1 r(1))
  moreover have "events s' = events s @ ?es" "length ?es = length (c # calls)"
    "\<forall>e\<in>set ?es. event_type e = ''invocation''"
    using r(7,8,9) by (simp_all add: invocation_event_def)
  moreover have "invocation_count p' = invocation_count p + int (length (c # calls))"
    "evolution_stage p' = evolution_stage p" "learned_phrases p' = learned_phrases p"
    "developed_traits p' = developed_traits p"
    using r(3,4,5,6) by (simp_all add: invoked_def)
  ultimately show ?case
    using r(2) by blast
qed

section \<open>Documents written by the engine load back\<close>

lemma update_fresh: "k \<notin> fst ` set al \<Longrightarrow> AList.update k v al = al @ [(k, v)]"
  by (induction al) auto

lemma foldl_dict_set_distinct:
  "distinct (map fst (acc @ ms)) \<Longrightarrow>
   foldl (\<lambda>d (k, v). dict_set d k v) acc ms = acc @ ms"
proof (induction ms arbitrary: acc)
  case Nil
  show ?case by simp
next
  case (Cons m ms)
  obtain k v where m: "m = (k, v)" by (cases m)
  from Cons.prems have "k \<notin> fst ` set acc"
    by (auto simp: m)
  then have u: "dict_set acc k v = acc @ [(k, v)]"
    by (simp add: dict_set_def update_fresh)
  from Cons.prems have "distinct (map fst ((acc @ [(k, v)]) @ ms))"
    by (simp add: m)
  from Cons.IH [OF this] show ?case
    by (simp add: m u)
qed

lemma dict_of_members_distinct:
  "distinct (map fst ms) \<Longrightarrow> dict_of_members ms = ms"
  using foldl_dict_set_distinct [of "[]" ms] by (simp add: dict_of_members_def)

lemma foldl_dict_set_keys:
  "distinct (dict_keys acc) \<Longrightarrow>
   distinct (dict_keys (foldl (\<lambda>d (k, v). dict_set d k v) acc ms))"
proof (induction ms arbitrary: acc)
  case Nil
  then show ?case by simp
next
  case (Cons m ms)
  obtain k v where m: "m = (k, v)" by (cases m)
  from Cons.IH [OF distinct_dict_set [OF Cons.prems, of k v]] show ?case
    by (simp add: m)
qed

lemma distinct_dict_of_members: "distinct (dict_keys (dict_of_members ms))"
  using foldl_dict_set_keys [of "[]" ms] by (simp add: dict_of_members_def dict_keys_def)

lemma mapM_as_str: "mapM as_str (map JStr xs) = Inr xs"
  by (induction xs) simp_all

lemma as_str_list_JList [simp]: "as_str_list (JList (map JStr xs)) = Inr xs"
  by (simp add: mapM_as_str)

lemma persona_members:
  "dict_of_members
     [(''name'', JStr (name p)),
      (''role'', JStr (role p)),
      (''voice'', JStr (voice p)),
      (''essence'', JStr (essence p)),
      (''constraints'', JList (map JStr (constraints p))),
      (''sample_phrases'', JList (map JStr (sample_phrases p))),
      (''invocation_count'', JInt (invocation_count p)),
      (''evolution_stage'', JInt (evolution_stage p)),
      (''accumulated_context'', JList (map JStr (accumulated_context p))),
      (''learned_phrases'', JList (map JStr (learned_phrases p))),
      (''developed_traits'', JList (map JStr (developed_traits p)))] =
     [(''name'', JStr (name p)),
      (''role'', JStr (role p)),
      (''voice'', JStr (voice p)),
      (''essence'', JStr (essence p)),
      (''constraints'', JList (map JStr (constraints p))),
      (''sample_phrases'', JList (map JStr (sample_phrases p))),
      (''invocation_count'', JInt (invocation_count p)),
      (''evolution_stage'', JInt (evolution_stage p)),
      (''accumulated_context'', JList (map JStr (accumulated_context p))),
      (''learned_phrases'', JList (map JStr (learned_phrases p))),
      (''developed_traits'', JList (map JStr (developed_traits p)))]"
  by (rule dict_of_members_distinct) simp

lemma persona_roundtrip: "persona_from_dict (persona_to_dict p) = Inr p"
  unfolding persona_to_dict_def persona_from_dict.simps persona_members Let_def
  by (simp add: dict_keys_def persona_fields_def required_def optional_int_def
        optional_list_def dict_get_def new_PersonaState_def mapM_as_str)

lemma event_members:
  "dict_of_members
     [(''timestamp'', JStr (timestamp e)),
      (''persona_name'', JStr (persona_name e)),
      (''event_type'', JStr (event_type e)),
      (''context'', JStr (context e)),
      (''emotional_weight'', JInt (emotional_weight e)),
      (''tags'', JList (map JStr (tags e)))] =
     [(''timestamp'', JStr (timestamp e)),
      (''persona_name'', JStr (persona_name e)),
      (''event_type'', JStr (event_type e)),
      (''context'', JStr (context e)),
      (''emotional_weight'', JInt (emotional_weight e)),
      (''tags'', JList (map JStr (tags e)))]"
  by (rule dict_of_members_distinct) simp

lemma event_roundtrip: "event_from_dict (event_to_dict e) = Inr e"
  unfolding event_to_dict_def event_from_dict.simps event_members Let_def
  by (simp add: dict_keys_def event_fields_def required_def dict_get_def mapM_as_str)

lemma mapM_events: "mapM event_from_dict (map event_to_dict es) = Inr es"
  by (induction es) (simp_all add: event_roundtrip)

lemma mapM_personas:
  "mapM (\<lambda>(n, st). seq (persona_from_dict st) (\<lambda>p. Inr (n, p)))
        (map (\<lambda>(n, p). (n, persona_to_dict p)) ps) = Inr ps"
  by (induction ps) (auto simp: persona_roundtrip)

lemma mapM_lore:
  "mapM (\<lambda>(k, v). seq (as_str_list v) (\<lambda>xs. Inr (k, xs)))
        (map (\<lambda>(k, xs). (k, JList (map JStr xs))) lo) = Inr lo"
  by (induction lo) (auto simp: mapM_as_str)

lemma load_personas_saved:
  assumes "distinct (dict_keys ps)"
  shows "load_personas (JObj (map (\<lambda>(n, p). (n, persona_to_dict p)) ps)) = Inr ps"
proof -
  have k: "map fst (map (\<lambda>(n, p). (n, persona_to_dict p)) ps) = map fst ps"
    by (induction ps) auto
  have "dict_of_members (map (\<lambda>(n, p). (n, persona_to_dict p)) ps)
          = map (\<lambda>(n, p). (n, persona_to_dict p)) ps"
    by (rule dict_of_members_distinct, subst k) (use assms in \<open>simp add: dict_keys_def\<close>)
  moreover have "dict_of_members ps = ps"
    by (rule dict_of_members_distinct) (use assms in \<open>simp add: dict_keys_def\<close>)
  ultimately show ?thesis
    by (simp add: mapM_personas)
qed

lemma load_events_saved: "load_events (JList (map event_to_dict es)) = Inr es"
  by (simp add: mapM_events)

lemma load_lore_saved:
  assumes "distinct (dict_keys lo)"
  shows "load_lore (JObj (map (\<lambda>(k, xs). (k, JList (map JStr xs))) lo)) = Inr lo"
proof -
  have k: "map fst (map (\<lambda>(k, xs). (k, JList (map JStr xs))) lo) = map fst lo"
    by (induction lo) auto
  have "dict_of_members (map (\<lambda>(k, xs). (k, JList (map JStr xs))) lo)
          = map (\<lambda>(k, xs). (k, JList (map JStr xs))) lo"
    by (rule dict_of_members_distinct, subst k) (use assms in \<open>simp add: dict_keys_def\<close>)
  then show ?thesis
    by (simp add: mapM_lore)
qed

lemma new_engine_saved:
  assumes "dicts_ok s"
  shows "new_engine (files (save_state s)) = Inr (save_state s)"
  using assms
  by (simp add: new_engine_def load_state_def save_state_def dicts_ok_def
        load_personas_saved load_events_saved load_lore_saved
      del: load_personas.simps load_events.simps load_lore.simps)

lemma dicts_ok_save_state [simp]: "dicts_ok (save_state s) = dicts_ok s"
  by (simp add: dicts_ok_def)

lemma mapM_keys:
  "mapM (\<lambda>(k, v). seq (f v) (\<lambda>y. Inr (k, y))) ms = Inr kys \<Longrightarrow> map fst kys = map fst ms"
proof (induction ms arbitrary: kys)
  case Nil
  then show ?case by simp
next
  case (Cons m ms)
  obtain k v where m: "m = (k, v)" by (cases m)
  from Cons.prems obtain y ys where "f v = Inr y"
    and ys: "mapM (\<lambda>(k, v). seq (f v) (\<lambda>y. Inr (k, y))) ms = Inr ys"
    and "kys = (k, y) # ys"
    by (auto simp: m seq_def split: sum.splits)
  with Cons.IH [OF ys] show ?case
    by (simp add: m)
qed

lemma load_personas_ok: "load_personas doc = Inr ps \<Longrightarrow> distinct (dict_keys ps)"
  by (cases doc) (auto simp: seq_def distinct_dict_of_members split: sum.splits)

lemma load_lore_ok: "load_lore doc = Inr lo \<Longrightarrow> distinct (dict_keys lo)"
proof (cases doc)
  case (JObj ms)
  assume "load_lore doc = Inr lo"
  with JObj have "mapM (\<lambda>(k, v). seq (as_str_list v) (\<lambda>xs. Inr (k, xs))) (dict_of_members ms) = Inr lo"
    by (simp add: seq_def split: sum.splits)
  from mapM_keys [OF this] distinct_dict_of_members [of ms] show ?thesis
    by (simp add: dict_keys_def)
qed simp_all

lemma new_engine_ok:
  assumes "new_engine fs = Inr s"
  shows "dicts_ok s"
proof -
  let ?s0 = "\<lparr>personas = [], events = [], generated_lore = [], files = fs\<rparr>"
  from assms have "distinct (dict_keys (personas s))"
    by (auto simp: new_engine_def load_state_def seq_def dict_keys_def
          split: option.splits sum.splits dest!: load_personas_ok)
  moreover from assms have "distinct (dict_keys (generated_lore s))"
    by (auto simp: new_engine_def load_state_def seq_def dict_keys_def
          split: option.splits sum.splits dest!: load_lore_ok)
  ultimately show ?thesis
    by (simp add: dicts_ok_def)
qed

lemma register_persona_ok: "dicts_ok s \<Longrightarrow> dicts_ok (register_persona s p)"
  by (simp add: register_persona_def dicts_ok_def distinct_dict_set)

lemma log_invocation_ok:
  assumes "dicts_ok s" and "log_invocation a s pn cx tgs ew = Inr s'"
  shows "dicts_ok s'"
  by (rule log_invocation_cases [of s pn a cx tgs ew])
     (use assms in \<open>auto simp: dicts_ok_def distinct_dict_set\<close>)

lemma reachable_ok: "reachable s \<Longrightarrow> dicts_ok s"
  by (induction rule: reachable.induct)
     (auto intro: new_engine_ok register_persona_ok log_invocation_ok)

section \<open>Lines of the report and of the export\<close>

lemma starts_with_append [simp]: "starts_with pre (pre @ rest)"
  by (induction pre) simp_all


lemma report_header_entries:
  "filter (starts_with (''  '' @ bullet @ '' '')) report_header = []"
proof -
  have "\<not> starts_with (''  '' @ bullet @ '' '') (replicate 60 CHR ''='')"
    by code_simp
  then show ?thesis
    by (simp add: report_header_def)
qed

lemma report_persona_entries:
  "filter (starts_with (''  '' @ bullet @ '' '')) (report_persona p) =
     map (\<lambda>x. ''  '' @ bullet @ '' '' @ x) (developed_traits p @ learned_phrases p)"
proof -
  have all: "filter (starts_with (''  '' @ bullet @ '' '')) (map (\<lambda>x. ''  '' @ bullet @ '' '' @ x) xs)
      = map (\<lambda>x. ''  '' @ bullet @ '' '' @ x) xs" for xs
    by (induction xs) (simp_all add: bullet_def)
  show ?thesis
    by (simp add: report_persona_def all) (simp add: bullet_def newline_def)
qed

lemma anon_engine_personas: "personas anon_engine = [([], anon), (''A'', elder)]"
  by (simp add: anon_engine_def register_persona_def empty_engine_def dict_set_def
        anon_def elder_def new_PersonaState_def)

section \<open>Stage transitions happen at the thresholds only\<close>

text \<open>
  Claim C1. For a registered persona \<open>n\<close>, a \<open>log_invocation\<close> call raises its
  \<open>evolution_stage\<close> by exactly 1 exactly when the call names it, brings its
  \<open>invocation_count\<close> to one of 10, 25, 50, 100, 250 and the stage was below 5; in every
  other call the stage is unchanged. The stage never decreases, and a stage of at most 5
  stays at most 5. The thresholds are compared in ascending order and are pairwise
  different, so a call makes at most one transition.
\<close>

theorem evolution_stage_step:
  assumes "dict_get (personas s) n = Some p"
  shows "\<exists>s' p'. log_invocation a s pn cx tgs ew = Inr s'
     \<and> dict_get (personas s') n = Some p'
     \<and> (evolution_stage p' = evolution_stage p + 1 \<longleftrightarrow>
          n = pn \<and> invocation_count p' \<in> {10, 25, 50, 100, 250} \<and> evolution_stage p < 5)
     \<and> (evolution_stage p' \<noteq> evolution_stage p + 1 \<longrightarrow> evolution_stage p' = evolution_stage p)
     \<and> evolution_stage p \<le> evolution_stage p'
     \<and> (evolution_stage p \<le> 5 \<longrightarrow> evolution_stage p' \<le> 5)
     \<and> sorted thresholds \<and> distinct thresholds"
proof -
  have ord: "sorted thresholds \<and> distinct thresholds"
    by (simp add: thresholds_def)
  have "\<exists>s' p'. log_invocation a s pn cx tgs ew = Inr s'
     \<and> dict_get (personas s') n = Some p'
     \<and> (evolution_stage p' = evolution_stage p + 1 \<longleftrightarrow>
          n = pn \<and> invocation_count p' \<in> {10, 25, 50, 100, 250} \<and> evolution_stage p < 5)
     \<and> (evolution_stage p' \<noteq> evolution_stage p + 1 \<longrightarrow> evolution_stage p' = evolution_stage p)
     \<and> evolution_stage p \<le> evolution_stage p'
     \<and> (evolution_stage p \<le> 5 \<longrightarrow> evolution_stage p' \<le> 5)"
  proof (cases "n = pn")
    case False
    from log_invocation_other [OF False, of a s cx tgs ew] assms False
    show ?thesis by auto
  next
    case True
    show ?thesis
    proof (rule log_invocation_cases [of s pn a cx tgs ew])
      assume "dict_get (personas s) pn = None"
      with assms True show ?thesis by simp
    next
      fix q
      assume q: "dict_get (personas s) pn = Some q"
        and c: "\<not> (invocation_count q + 1 \<in> set thresholds \<and> evolution_stage q < 5)"
        and r: "log_invocation a s pn cx tgs ew =
          Inr (save_state (s\<lparr>personas := dict_set (personas s) pn (invoked q cx),
                            events := events s @ [invocation_event a pn cx tgs ew]\<rparr>))"
      from q assms True have "q = p" by simp
      with c r True show ?thesis
        by (auto simp: invoked_def thresholds_set)
    next
      fix q
      assume q: "dict_get (personas s) pn = Some q"
        and c: "invocation_count q + 1 \<in> set thresholds" "evolution_stage q < 5"
        and r: "log_invocation a s pn cx tgs ew =
          Inr (save_state (s\<lparr>personas := dict_set (personas s) pn (evolved a (invoked q cx)),
                            events := events s @ [invocation_event a pn cx tgs ew,
                               evolution_event a pn (evolution_stage q + 1)]\<rparr>))"
      from q assms True have "q = p" by simp
      with c r True show ?thesis
        by (auto simp: invoked_def evolved_def thresholds_set)
    qed
  qed
  with ord show ?thesis
    by blast
qed

theorem evolution_stage_step_witness:
  "dict_get (personas veteran_engine) ''X'' = Some veteran
   \<and> (\<exists>s' p'. log_invocation demo_ambient veteran_engine ''X'' ''ctx'' None 7 = Inr s'
        \<and> dict_get (personas s') ''X'' = Some p'
        \<and> invocation_count veteran = 9
        \<and> evolution_stage veteran = 0
        \<and> evolution_stage p' = 1)"
proof -
  have h: "dict_get (personas veteran_engine) ''X'' = Some veteran"
    by (simp add: veteran_engine_def register_persona_def empty_engine_def veteran_def
          demo_persona_def new_PersonaState_def dict_set_def dict_get_def)
  have v: "invocation_count veteran = 9" "evolution_stage veteran = 0"
    by (simp_all add: veteran_def demo_persona_def new_PersonaState_def)
  have l: "log_invocation demo_ambient veteran_engine ''X'' ''ctx'' None 7 =
      Inr (save_state (veteran_engine\<lparr>personas := dict_set (personas veteran_engine) ''X''
              (evolved demo_ambient (invoked veteran ''ctx'')),
            events := events veteran_engine @ [invocation_event demo_ambient ''X'' ''ctx'' None 7,
              evolution_event demo_ambient ''X'' (evolution_stage veteran + 1)]\<rparr>))"
    by (rule log_invocation_evolves [OF h]) (simp_all add: v thresholds_def)
  from evolution_stage_step [OF h, of demo_ambient "''X''" "''ctx''" None 7]
  obtain s' p' where r: "log_invocation demo_ambient veteran_engine ''X'' ''ctx'' None 7 = Inr s'"
    "dict_get (personas s') ''X'' = Some p'"
    "evolution_stage p' = evolution_stage veteran + 1 \<longleftrightarrow>
       ''X'' = ''X'' \<and> invocation_count p' \<in> {10, 25, 50, 100, 250} \<and> evolution_stage veteran < 5"
    by blast
  from r(1,2) l have "invocation_count p' = 10"
    by (auto simp: evolved_def invoked_def v)
  with r(3) v have "evolution_stage p' = 1"
    by simp
  with h r(1,2) v show ?thesis
    by blast
qed

section \<open>Unknown names\<close>

text \<open>
  Claim C2. A \<open>log_invocation\<close> call with a name that is not in the persona store returns
  the engine as it was: the same persona store, the same event log, the same documents.
\<close>

theorem unknown_persona_no_change:
  assumes "dict_get (personas s) pn = None"
  shows "log_invocation a s pn cx tgs ew = Inr s"
  using assms by (simp add: log_invocation_def)

theorem unknown_persona_no_change_witness:
  "dict_get (personas demo_engine) ''nonexistent'' = None
   \<and> log_invocation demo_ambient demo_engine ''nonexistent'' ''ctx'' (Some [''t'']) 7
       = Inr demo_engine"
proof -
  have h: "dict_get (personas demo_engine) ''nonexistent'' = None"
    by (simp add: demo_engine_def register_persona_def empty_engine_def
          demo_persona_def new_PersonaState_def dict_set_def dict_get_def)
  from unknown_persona_no_change [OF h] h show ?thesis
    by simp
qed

section \<open>Counting invocations\<close>

text \<open>
  Claim C3. For a persona registered with \<open>invocation_count\<close> 0, after any run of
  \<open>log_invocation\<close> calls the run returns and the persona's \<open>invocation_count\<close> is the
  number of calls of the run that name it (each of them succeeds, the persona being
  registered); calls naming others do not count.
\<close>

theorem invocation_count_counts_calls:
  assumes "dict_get (personas s) n = Some p" and "invocation_count p = 0"
  shows "\<exists>s' p'. log_invocations s calls = Inr s'
     \<and> dict_get (personas s') n = Some p'
     \<and> invocation_count p' = int (length (filter (\<lambda>c. fst (snd c) = n) calls))"
  using log_invocations_count [OF assms(1), of calls] assms(2) by simp

theorem invocation_count_counts_calls_witness:
  "dict_get (personas demo_engine) ''X'' = Some demo_persona
   \<and> invocation_count demo_persona = 0
   \<and> (\<exists>s' p'. log_invocations demo_engine demo_calls = Inr s'
        \<and> dict_get (personas s') ''X'' = Some p' \<and> invocation_count p' = 2)"
proof -
  have z: "invocation_count demo_persona = 0"
    by (simp add: demo_persona_def new_PersonaState_def)
  have "int (length (filter (\<lambda>c. fst (snd c) = ''X'') demo_calls)) = 2"
    by (simp add: demo_calls_def)
  with invocation_count_counts_calls [OF demo_engine_X z, of demo_calls] demo_engine_X z
  show ?thesis
    by simp
qed

section \<open>The event of a stage transition\<close>

text \<open>
  Claim C4. A stage transition of a registered persona appends exactly one event to the
  event log: of type \<open>evolution\<close>, with \<open>emotional_weight\<close> 10, context
  \<open>Stage <n> evolution\<close> and tags \<open>evolution\<close> and \<open>stage_<n>\<close>, where \<open><n>\<close> is the
  persona's new stage.
\<close>

theorem stage_transition_event:
  assumes "dict_get (personas s) pn = Some p"
  shows "\<exists>s' p'. trigger_evolution a s pn = Inr s'
     \<and> dict_get (personas s') pn = Some p'
     \<and> evolution_stage p' = evolution_stage p + 1
     \<and> events s' = events s @
          [\<lparr>timestamp = now_evolution a, persona_name = pn, event_type = ''evolution'',
            context = ''Stage '' @ str_int (evolution_stage p') @ '' evolution'',
            emotional_weight = 10,
            tags = [''evolution'', ''stage_'' @ str_int (evolution_stage p')]\<rparr>]"
  using assms by (simp add: trigger_evolution_known)

theorem stage_transition_event_witness:
  "dict_get (personas veteran_engine) ''X'' = Some veteran
   \<and> (\<exists>s' p'. trigger_evolution demo_ambient veteran_engine ''X'' = Inr s'
        \<and> dict_get (personas s') ''X'' = Some p'
        \<and> evolution_stage p' = 1
        \<and> events s' =
          [\<lparr>timestamp = ''2025-01-01T00:00:01'', persona_name = ''X'', event_type = ''evolution'',
            context = ''Stage 1 evolution'', emotional_weight = 10,
            tags = [''evolution'', ''stage_1'']\<rparr>])"
proof -
  have v: "evolution_stage veteran = 0"
    by (simp add: veteran_def demo_persona_def new_PersonaState_def)
  have e: "events veteran_engine = []"
    by (simp add: veteran_engine_def register_persona_def empty_engine_def)
  have n: "str_int 1 = ''1''"
    by (simp add: str_int_def str_nat.simps)
  from stage_transition_event [OF veteran_engine_X, of demo_ambient] veteran_engine_X
  show ?thesis
    by (auto simp: v e n demo_ambient_def)
qed

section \<open>Ten invocations of a fresh persona\<close>

text \<open>
  Claim C5. From a registered persona with all evolving fields at zero and an empty event
  log, ten \<open>log_invocation\<close> calls naming it give \<open>invocation_count\<close> 10,
  \<open>evolution_stage\<close> 1, one learned phrase, one developed trait, and an event log of 11
  events, 10 of type \<open>invocation\<close> and 1 of type \<open>evolution\<close>, whatever the contexts, tags,
  weights, clock readings and random draws of the calls.
\<close>

theorem ten_invocations_scenario:
  assumes "dict_get (personas s) n = Some p"
    and "invocation_count p = 0" and "evolution_stage p = 0"
    and "accumulated_context p = []" and "learned_phrases p = []"
    and "developed_traits p = []"
    and "events s = []"
    and "length calls = 10" and "\<forall>c\<in>set calls. fst (snd c) = n"
  shows "\<exists>s' p'. log_invocations s calls = Inr s'
     \<and> dict_get (personas s') n = Some p'
     \<and> invocation_count p' = 10
     \<and> evolution_stage p' = 1
     \<and> length (learned_phrases p') = 1
     \<and> length (developed_traits p') = 1
     \<and> length (events s') = 11
     \<and> length (filter (\<lambda>e. event_type e = ''invocation'') (events s')) = 10
     \<and> length (filter (\<lambda>e. event_type e = ''evolution'') (events s')) = 1"
proof -
  from assms(8) have ne: "calls \<noteq> []" by auto
  define front where "front = butlast calls"
  have calls: "calls = front @ [last calls]"
    using ne by (simp add: front_def)
  have lf: "length front = 9"
    using assms(8) by (simp add: front_def)
  have nf: "\<forall>c\<in>set front. fst (snd c) = n"
    using assms(9) by (auto simp: front_def dest: in_set_butlastD)
  obtain a cx tgs ew where lc: "last calls = (a, n, cx, tgs, ew)"
    using assms(9) ne by (cases "last calls") (metis fst_conv last_in_set snd_conv)
  from quiet_run [OF assms(1) nf] assms(2) lf
  obtain s9 p9 es where r: "log_invocations s front = Inr s9"
     "dict_get (personas s9) n = Some p9"
     "invocation_count p9 = 9" "evolution_stage p9 = 0"
     "learned_phrases p9 = []" "developed_traits p9 = []"
     "events s9 = es" "length es = 9" "\<forall>e\<in>set es. event_type e = ''invocation''"
    using assms(3,5,6,7) by auto
  let ?p' = "evolved a (invoked p9 cx)"
  let ?s' = "save_state (s9\<lparr>personas := dict_set (personas s9) n ?p',
               events := events s9 @ [invocation_event a n cx tgs ew,
                  evolution_event a n (evolution_stage p9 + 1)]\<rparr>)"
  have "log_invocation a s9 n cx tgs ew = Inr ?s'"
    by (rule log_invocation_evolves [OF r(2)]) (simp_all add: r(3,4) thresholds_def)
  then have run: "log_invocations s calls = Inr ?s'"
    by (subst calls) (simp add: log_invocations_append r(1) lc)
  have fi: "filter (\<lambda>e. event_type e = ''invocation'') es = es"
    using r(9) by (simp add: filter_id_conv)
  have fe: "filter (\<lambda>e. event_type e = ''evolution'') es = []"
    using r(9) by (auto simp: filter_empty_conv)
  have "dict_get (personas ?s') n = Some ?p'"
    by simp
  moreover have "invocation_count ?p' = 10" "evolution_stage ?p' = 1"
    "length (learned_phrases ?p') = 1" "length (developed_traits ?p') = 1"
    by (simp_all add: evolved_def invoked_def r(3,4,5,6))
  moreover have "length (events ?s') = 11"
    by (simp add: r(7,8))
  moreover have "length (filter (\<lambda>e. event_type e = ''invocation'') (events ?s')) = 10"
    "length (filter (\<lambda>e. event_type e = ''evolution'') (events ?s')) = 1"
    by (simp_all add: r(7) fi fe r(8) invocation_event_def evolution_event_def)
  ultimately show ?thesis
    using run by blast
qed

theorem ten_invocations_scenario_witness:
  "dict_get (personas demo_engine) ''X'' = Some demo_persona
   \<and> invocation_count demo_persona = 0 \<and> evolution_stage demo_persona = 0
   \<and> accumulated_context demo_persona = [] \<and> learned_phrases demo_persona = []
   \<and> developed_traits demo_persona = [] \<and> events demo_engine = []
   \<and> length ten_calls = 10 \<and> map (\<lambda>c. fst (snd c)) ten_calls = replicate 10 ''X''
   \<and> (\<exists>s' p'. log_invocations demo_engine ten_calls = Inr s'
     \<and> dict_get (personas s') ''X'' = Some p'
     \<and> invocation_count p' = 10
     \<and> evolution_stage p' = 1
     \<and> length (learned_phrases p') = 1
     \<and> length (developed_traits p') = 1
     \<and> length (events s') = 11
     \<and> length (filter (\<lambda>e. event_type e = ''invocation'') (events s')) = 10
     \<and> length (filter (\<lambda>e. event_type e = ''evolution'') (events s')) = 1)"
proof -
  have h: "invocation_count demo_persona = 0" "evolution_stage demo_persona = 0"
    "accumulated_context demo_persona = []" "learned_phrases demo_persona = []"
    "developed_traits demo_persona = []"
    by (simp_all add: demo_persona_def new_PersonaState_def)
  have e: "events demo_engine = []"
    by (simp add: demo_engine_def register_persona_def empty_engine_def)
  have c: "length ten_calls = 10" "\<forall>c\<in>set ten_calls. fst (snd c) = ''X''"
    by (simp_all add: ten_calls_def)
  have m: "map (\<lambda>c. fst (snd c)) ten_calls = replicate 10 ''X''"
    by (simp add: ten_calls_def)
  from ten_invocations_scenario [OF demo_engine_X h e c] demo_engine_X h e c(1) m
  show ?thesis
    by blast
qed

section \<open>Identity fields are never written\<close>

text \<open>
  Claim C8. For every registered persona and each of \<open>log_invocation\<close>, the threshold
  check and the stage transition, whatever persona the operation names: the persona is
  still registered afterwards and its \<open>name\<close>, \<open>role\<close>, \<open>voice\<close>, \<open>essence\<close>,
  \<open>constraints\<close> and \<open>sample_phrases\<close> are as before.
\<close>

theorem identity_fields_frame:
  assumes "dict_get (personas s) n = Some p"
    and "log_invocation a s pn cx tgs ew = Inr s'
         \<or> check_evolution a s pn = Inr s' \<or> trigger_evolution a s pn = Inr s'"
  shows "\<exists>p'. dict_get (personas s') n = Some p'
     \<and> name p' = name p \<and> role p' = role p \<and> voice p' = voice p \<and> essence p' = essence p
     \<and> constraints p' = constraints p \<and> sample_phrases p' = sample_phrases p"
proof -
  have "\<exists>p'. dict_get (personas s') n = Some p' \<and> identity_of p' = identity_of p"
    using assms(2) log_invocation_identity [OF assms(1)] check_evolution_identity [OF assms(1)]
      trigger_evolution_identity [OF assms(1)]
    by blast
  then show ?thesis
    by (simp add: identity_of_def)
qed

theorem identity_fields_frame_witness:
  "dict_get (personas veteran_engine) ''X'' = Some veteran
   \<and> (\<exists>s'. log_invocation demo_ambient veteran_engine ''X'' ''ctx'' None 7 = Inr s'
        \<and> (\<exists>p'. dict_get (personas s') ''X'' = Some p'
             \<and> name p' = ''X'' \<and> role p' = ''Tester'' \<and> voice p' = ''plain''
             \<and> essence p' = ''trial'' \<and> constraints p' = [''Prepend nametag'']
             \<and> sample_phrases p' = [''X: first.'', ''X: second.'']))"
proof -
  from log_invocation_count [OF veteran_engine_X, of demo_ambient "''X''" "''ctx''" None 7]
  obtain s' where s': "log_invocation demo_ambient veteran_engine ''X'' ''ctx'' None 7 = Inr s'"
    by blast
  then have "log_invocation demo_ambient veteran_engine ''X'' ''ctx'' None 7 = Inr s'
      \<or> check_evolution demo_ambient veteran_engine ''X'' = Inr s'
      \<or> trigger_evolution demo_ambient veteran_engine ''X'' = Inr s'"
    by simp
  from identity_fields_frame [OF veteran_engine_X this] s' veteran_engine_X
  show ?thesis
    by (auto simp: veteran_def demo_persona_def new_PersonaState_def)
qed

section \<open>Persist, then reload\<close>

text \<open>
  Claim C6. For every reachable state of the engine, saving it and constructing a new
  engine on the documents written succeeds and gives the same persona store, field for
  field and in the same order, the same event log and the same lore cache.
\<close>

theorem save_load_roundtrip:
  assumes "reachable s"
  shows "\<exists>s'. new_engine (files (save_state s)) = Inr s'
     \<and> personas s' = personas s \<and> events s' = events s
     \<and> generated_lore s' = generated_lore s"
  using new_engine_saved [OF reachable_ok [OF assms]] by simp

theorem save_load_roundtrip_witness:
  "\<exists>s1. log_invocation demo_ambient veteran_engine ''X'' ''ctx'' None 7 = Inr s1
     \<and> reachable s1
     \<and> length (events s1) = 2
     \<and> (\<exists>s'. new_engine (files (save_state s1)) = Inr s'
          \<and> personas s' = personas s1 \<and> events s' = events s1
          \<and> generated_lore s' = generated_lore s1)"
proof -
  have v: "invocation_count veteran = 9" "evolution_stage veteran = 0"
    by (simp_all add: veteran_def demo_persona_def new_PersonaState_def)
  let ?s1 = "save_state (veteran_engine\<lparr>personas := dict_set (personas veteran_engine) ''X''
              (evolved demo_ambient (invoked veteran ''ctx'')),
            events := events veteran_engine @ [invocation_event demo_ambient ''X'' ''ctx'' None 7,
              evolution_event demo_ambient ''X'' (evolution_stage veteran + 1)]\<rparr>)"
  have l: "log_invocation demo_ambient veteran_engine ''X'' ''ctx'' None 7 = Inr ?s1"
    by (rule log_invocation_evolves [OF veteran_engine_X]) (simp_all add: v thresholds_def)
  have "new_engine empty_disk = Inr empty_engine"
    by (simp add: new_engine_def load_state_def empty_disk_def empty_engine_def)
  then have "reachable empty_engine"
    by (rule reachable.init)
  then have "reachable veteran_engine"
    unfolding veteran_engine_def by (rule reachable.register)
  then have r: "reachable ?s1"
    using l by (rule reachable.invoke)
  have e: "length (events ?s1) = 2"
    by (simp add: veteran_engine_def register_persona_def empty_engine_def)
  from save_load_roundtrip [OF r] l r e show ?thesis
    by blast
qed

section \<open>Order of the exported phrases\<close>


section \<open>The report of one persona\<close>

text \<open>
  Claim C9, as stated, fails for a persona registered under the empty name: the test
  \<open>if persona_name:\<close> takes the empty string for no name, and the report then covers all
  personas, here with the trait and the phrase of the persona \<open>A\<close>, while the persona
  named has neither.
\<close>

theorem report_empty_name_counterexample:
  "dict_get (personas anon_engine) [] = Some anon
   \<and> developed_traits anon = [] \<and> learned_phrases anon = []
   \<and> dict_get (personas anon_engine) ''A'' = Some elder
   \<and> developed_traits elder = [''Learns contextual flexibility'']
   \<and> generate_mythological_report anon_engine (Some [])
       = (Inr (join_lines (report_header @ report_persona anon @ report_persona elder)),
          anon_engine)
   \<and> filter (starts_with (''  '' @ bullet @ '' ''))
         (report_header @ report_persona anon @ report_persona elder)
       = [''  '' @ bullet @ '' Learns contextual flexibility'',
          ''  '' @ bullet @ '' A: This work is shaping me too.'']"
proof -
  have a: "developed_traits anon = []" "learned_phrases anon = []"
    by (simp_all add: anon_def new_PersonaState_def)
  have e: "developed_traits elder = [''Learns contextual flexibility'']"
    "learned_phrases elder = [''A: This work is shaping me too.'']"
    by (simp_all add: elder_def new_PersonaState_def)
  have g: "dict_get (personas anon_engine) [] = Some anon"
    "dict_get (personas anon_engine) ''A'' = Some elder"
    by (simp_all add: anon_engine_personas dict_get_def)
  have r: "generate_mythological_report anon_engine (Some [])
       = (Inr (join_lines (report_header @ report_persona anon @ report_persona elder)),
          anon_engine)"
    by (simp add: generate_mythological_report_def anon_engine_personas dict_values_def)
  have f: "filter (starts_with (''  '' @ bullet @ '' ''))
         (report_header @ report_persona anon @ report_persona elder)
       = [''  '' @ bullet @ '' Learns contextual flexibility'',
          ''  '' @ bullet @ '' A: This work is shaping me too.'']"
    by (simp only: filter_append report_header_entries report_persona_entries a e)
       simp
  from a e(1) g r f show ?thesis
    by (simp only: simp_thms)
qed

text \<open>
  Claim C9, amended. For every non-empty name in the store, the report for that name is
  the header followed by the lines of that persona alone, and the engine is as before.
  The lines start with the persona's name and role, its stage and its invocation count,
  and the entries of the report are exactly the persona's \<open>developed_traits\<close> followed by
  its \<open>learned_phrases\<close>, in their stored order.
\<close>

theorem single_persona_report:
  assumes "pn \<noteq> []" and "dict_get (personas s) pn = Some p"
  shows "generate_mythological_report s (Some pn)
       = (Inr (join_lines (report_header @ report_persona p)), s)
     \<and> take 3 (report_persona p) =
         [newline @ ''## '' @ name p @ '' '' @ em_dash @ '' '' @ role p,
          ''Evolution Stage: '' @ str_int (evolution_stage p),
          ''Invocations: '' @ str_int (invocation_count p)]
     \<and> filter (starts_with (''  '' @ bullet @ '' '')) (report_header @ report_persona p) =
         map (\<lambda>x. ''  '' @ bullet @ '' '' @ x) (developed_traits p @ learned_phrases p)"
proof -
  have "generate_mythological_report s (Some pn)
       = (Inr (join_lines (report_header @ report_persona p)), s)"
    using assms by (simp add: generate_mythological_report_def)
  moreover have "take 3 (report_persona p) =
         [newline @ ''## '' @ name p @ '' '' @ em_dash @ '' '' @ role p,
          ''Evolution Stage: '' @ str_int (evolution_stage p),
          ''Invocations: '' @ str_int (invocation_count p)]"
    by (simp add: report_persona_def)
  ultimately show ?thesis
    by (simp only: filter_append report_header_entries report_persona_entries append_Nil simp_thms)
qed

theorem single_persona_report_witness:
  "''A'' \<noteq> [] \<and> dict_get (personas anon_engine) ''A'' = Some elder
   \<and> generate_mythological_report anon_engine (Some ''A'')
       = (Inr (join_lines (report_header @ report_persona elder)), anon_engine)
   \<and> filter (starts_with (''  '' @ bullet @ '' '')) (report_header @ report_persona elder) =
       [''  '' @ bullet @ '' Learns contextual flexibility'',
        ''  '' @ bullet @ '' A: This work is shaping me too.'']"
proof -
  have n: "''A'' \<noteq> []" by simp
  have g: "dict_get (personas anon_engine) ''A'' = Some elder"
    by (simp add: anon_engine_personas dict_get_def)
  have e: "map (\<lambda>x. ''  '' @ bullet @ '' '' @ x) (developed_traits elder @ learned_phrases elder)
      = [''  '' @ bullet @ '' Learns contextual flexibility'',
         ''  '' @ bullet @ '' A: This work is shaping me too.'']"
    by (simp add: elder_def new_PersonaState_def)
  from single_persona_report [OF n g] g e show ?thesis
    by (simp only: simp_thms) simp
qed

section \<open>The report of an unknown name\<close>

text \<open>
  Claim C10, as stated, fails for the empty name: it is in no store here, and the call
  returns the chronicle of all personas instead of failing.
\<close>

theorem report_unknown_empty_name_counterexample:
  "dict_get (personas empty_engine) [] = None
   \<and> generate_mythological_report empty_engine (Some [])
       = (Inr (join_lines report_header), empty_engine)"
  by (simp add: generate_mythological_report_def empty_engine_def dict_get_def
        dict_values_def)

text \<open>
  Claim C10, amended. For every non-empty name that is not in the store, the report
  operation fails with a \<open>KeyError\<close> for that name and leaves the engine as it was, while
  \<open>log_invocation\<close> with the same name returns normally and changes nothing.
\<close>

theorem unknown_report_fails:
  assumes "pn \<noteq> []" and "dict_get (personas s) pn = None"
  shows "generate_mythological_report s (Some pn) = (Inl (KeyError pn), s)
     \<and> log_invocation a s pn cx tgs ew = Inr s"
  using assms by (simp add: generate_mythological_report_def log_invocation_unknown)

theorem unknown_report_fails_witness:
  "''nonexistent'' \<noteq> [] \<and> dict_get (personas demo_engine) ''nonexistent'' = None
   \<and> generate_mythological_report demo_engine (Some ''nonexistent'')
       = (Inl (KeyError ''nonexistent''), demo_engine)
   \<and> log_invocation demo_ambient demo_engine ''nonexistent'' ''ctx'' None 5 = Inr demo_engine"
proof -
  have n: "''nonexistent'' \<noteq> []" by simp
  have g: "dict_get (personas demo_engine) ''nonexistent'' = None"
    by (simp add: demo_engine_def register_persona_def empty_engine_def
          demo_persona_def new_PersonaState_def dict_set_def dict_get_def)
  from unknown_report_fails [OF n g] g show ?thesis
    by simp
qed

end
